theory Spec2Isabelle
  imports Main "HOL-Library.Sublist" "HOL-Library.Multiset"
begin

section \<open>Data model\<close>

text \<open>
  Timestamps are whole seconds on one time line (the queries of the source format
  their bounds with the layout \<^verbatim>\<open>2006-01-02 15:04:05\<close>, that is, to the second).
  Strings are byte lists, as Go's are. The condition \<^verbatim>\<open>publishedAt >= ?\<close> holds of a
  row when its second is the second of the bound or a later one; how the store
  compares the text of a time with the text of a bound, and what this makes of
  \<^verbatim>\<open>publishedAt <= ?\<close>, is written out in the section on the query.
\<close>

type_synonym time = int

text \<open>\<^verbatim>\<open>models.NewsArticle\<close>, with the fields the source reads and writes.\<close>

record NewsArticle =
  Title :: string
  Description :: string
  ImageURL :: string
  URL :: string
  SourceURL :: string
  PublishedAt :: time
  Rank :: int
  Category :: string

section \<open>Strings\<close>

text \<open>
  \<^verbatim>\<open>strings.ToLower\<close> on ASCII text: the bytes \<^verbatim>\<open>A\<close> to \<^verbatim>\<open>Z\<close> are mapped to
  \<^verbatim>\<open>a\<close> to \<^verbatim>\<open>z\<close>, every other byte is kept. Go's function folds the letters of
  all of Unicode; it is this function on a text of ASCII bytes. The keywords of the
  Scorer are ASCII. The query, whose search text comes from the caller, takes Go's
  function as an argument.
\<close>

definition lower_char :: "char \<Rightarrow> char" where
  "lower_char c =
     (let n = (of_char c :: nat) in if 65 \<le> n \<and> n \<le> 90 then char_of (n + 32) else c)"

definition ToLower :: "string \<Rightarrow> string" where
  "ToLower s = map lower_char s"

text \<open>\<^verbatim>\<open>strings.Contains(s, substr)\<close>: \<open>substr\<close> occurs in \<open>s\<close> as a contiguous run.\<close>

fun Contains :: "string \<Rightarrow> string \<Rightarrow> bool" where
  "Contains [] substr = (substr = [])"
| "Contains (c # cs) substr = (prefix substr (c # cs) \<or> Contains cs substr)"

section \<open>Scorer\<close>

text \<open>
  The keyword tables of \<^verbatim>\<open>calculateRank\<close>. A Go map literal, written as the list of
  its entries in the order of the source; the keys of each table are distinct.
\<close>

definition cybersecurityKeywords :: "(string \<times> int) list" where
  "cybersecurityKeywords =
    [(''zero-day'', 5), (''exploit in the wild'', 5), (''active attack'', 5),
     (''critical vulnerability'', 5), (''alert'', 5), (''warning'', 5), (''patch now'', 5),
     (''ransomware attack'', 5), (''breach confirmed'', 5),
     (''vulnerability'', 3), (''exploit'', 3), (''breach'', 3), (''attack'', 3),
     (''malware'', 3), (''ransomware'', 3), (''phishing'', 3), (''threat'', 3),
     (''advisory'', 3),
     (''security'', 1), (''cybersecurity'', 1), (''data'', 1), (''privacy'', 1),
     (''risk'', 1), (''compliance'', 1), (''encryption'', 1), (''patch'', 1)]"

definition techKeywords :: "(string \<times> int) list" where
  "techKeywords =
    [(''ai'', 5), (''artificial intelligence'', 5), (''quantum computing'', 5),
     (''breakthrough'', 5), (''major update'', 5), (''new chip'', 5), (''innovation'', 5),
     (''future of tech'', 5),
     (''startup'', 3), (''funding'', 3), (''acquisition'', 3), (''cloud'', 3), (''5g'', 3),
     (''machine learning'', 3), (''data science'', 3), (''web3'', 3), (''metaverse'', 3),
     (''robotics'', 3),
     (''review'', 1), (''gadget'', 1), (''app'', 1), (''software'', 1), (''hardware'', 1),
     (''update'', 1), (''guide'', 1), (''tips'', 1)]"

definition generalKeywords :: "(string \<times> int) list" where
  "generalKeywords = [(''news'', 1), (''update'', 1), (''report'', 1)]"

text \<open>The \<^verbatim>\<open>switch article.Category\<close> that picks the table.\<close>

definition keywords_of :: "string \<Rightarrow> (string \<times> int) list" where
  "keywords_of category =
     (if category = ''Cybersecurity'' then cybersecurityKeywords
      else if category = ''Tech'' then techKeywords
      else generalKeywords)"

text \<open>
  The loop \<^verbatim>\<open>for keyword, score := range keywords\<close>, over the entries in the order
  \<open>ks\<close>, with the running \<open>rank\<close>. Go visits the entries of a map in an order it does
  not fix, so the order is an argument here.
\<close>

fun rankLoop :: "string \<Rightarrow> (string \<times> int) list \<Rightarrow> int \<Rightarrow> int" where
  "rankLoop content [] rank = rank"
| "rankLoop content ((keyword, score) # ks) rank =
     rankLoop content ks (if Contains content keyword then rank + score else rank)"

definition content_of :: "NewsArticle \<Rightarrow> string" where
  "content_of article = ToLower (Title article @ '' '' @ Description article)"

text \<open>\<^verbatim>\<open>calculateRank\<close> when the map is visited in the order \<open>ks\<close>.\<close>

definition calculateRankIn :: "(string \<times> int) list \<Rightarrow> NewsArticle \<Rightarrow> int" where
  "calculateRankIn ks article = rankLoop (content_of article) ks 0"

definition calculateRank :: "NewsArticle \<Rightarrow> int" where
  "calculateRank article = calculateRankIn (keywords_of (Category article)) article"

text \<open>The score of a category, a title and a description: the Scorer's contract.\<close>

definition score :: "string \<Rightarrow> string \<Rightarrow> string \<Rightarrow> int" where
  "score c t d =
     calculateRank \<lparr>Title = t, Description = d, ImageURL = [], URL = [], SourceURL = [],
                    PublishedAt = 0, Rank = 0, Category = c\<rparr>"

section \<open>Classifier\<close>

text \<open>The configured feeds, \<^verbatim>\<open>RssSources\<close> of the main package.\<close>

definition RssSources :: "string list" where
  "RssSources =
    [''https://www.bleepingcomputer.com/feed/'',
     ''https://feeds.feedburner.com/TheHackersNews'',
     ''https://blogs.cisco.com/security/feed'',
     ''https://www.wired.com/feed/category/security/latest/rss'',
     ''https://www.securityweek.com/feed/'',
     ''https://news.sophos.com/en-us/feed/'',
     ''https://www.csoonline.com/feed/'',
     ''https://www.theverge.com/rss/index.xml'',
     ''https://techcrunch.com/feed/'',
     ''https://arstechnica.com/feed/'',
     ''http://www.engadget.com/rss-full.xml'',
     ''http://www.fastcodesign.com/rss.xml'',
     ''http://www.forbes.com/entrepreneurs/index.xml'',
     ''https://blog.pragmaticengineer.com/rss/'',
     ''https://browser.engineering/rss.xml'',
     ''https://githubengineering.com/atom.xml'',
     ''https://joshwcomeau.com/rss.xml'',
     ''https://jvns.ca/atom.xml'',
     ''https://overreacted.io/rss.xml'',
     ''https://signal.org/blog/rss.xml'',
     ''https://slack.engineering/feed'',
     ''https://stripe.com/blog/feed.rss'',
     ''https://www.defenseone.com/rss/all/'',
     ''https://thediplomat.com/category/asia-defense/feed/'',
     ''https://www.janes.com/osint-insights/defence-news/feed/'',
     ''https://www.militarytimes.com/arc/outboundfeeds/news-rss/'',
     ''https://www.defensenews.com/arc/outboundfeeds/home-rss/'']"

definition cybersecuritySources :: "string list" where
  "cybersecuritySources =
    [''https://www.bleepingcomputer.com/feed/'',
     ''https://feeds.feedburner.com/TheHackersNews'',
     ''https://blogs.cisco.com/security/feed'',
     ''https://www.wired.com/feed/category/security/latest/rss'',
     ''https://www.securityweek.com/feed/'',
     ''https://news.sophos.com/en-us/feed/'',
     ''https://www.csoonline.com/feed/'']"

definition techSources :: "string list" where
  "techSources =
    [''https://www.theverge.com/rss/index.xml'',
     ''https://techcrunch.com/feed/'',
     ''https://arstechnica.com/feed/'',
     ''http://www.engadget.com/rss-full.xml'',
     ''http://www.fastcodesign.com/rss.com'',
     ''http://www.forbes.com/entrepreneurs/index.xml'',
     ''https://blog.pragmaticengineer.com/rss/'',
     ''https://browser.engineering/rss.xml'',
     ''https://githubengineering.com/atom.com'',
     ''https://joshwcomeau.com/rss.xml'',
     ''https://jvns.ca/atom.xml'',
     ''https://overreacted.io/rss.com'',
     ''https://signal.org/blog/rss.com'',
     ''https://slack.engineering/feed'',
     ''https://stripe.com/blog/feed.rss'']"

definition defenseSources :: "string list" where
  "defenseSources =
    [''https://www.defenseone.com/rss/all/'',
     ''https://thediplomat.com/category/asia-defense/feed/'',
     ''https://www.janes.com/osint-insights/defence-news/feed/'',
     ''https://www.militarytimes.com/arc/outboundfeeds/news-rss/'',
     ''https://www.defensenews.com/arc/outboundfeeds/home-rss/'']"

text \<open>
  \<^verbatim>\<open>getCategoryForSource\<close>: three loops \<^verbatim>\<open>for _, s := range l { if s == sourceURL {return c} }\<close>
  one after the other, then the default.
\<close>

definition getCategoryForSource :: "string \<Rightarrow> string" where
  "getCategoryForSource sourceURL =
     (if sourceURL \<in> set cybersecuritySources then ''Cybersecurity''
      else if sourceURL \<in> set techSources then ''Tech''
      else if sourceURL \<in> set defenseSources then ''Defense''
      else ''General'')"

section \<open>Article store\<close>

text \<open>
  The table \<^verbatim>\<open>articles\<close> of an open database: its rows in the order of their ids. The
  column \<^verbatim>\<open>url\<close> is declared \<^verbatim>\<open>NOT NULL UNIQUE\<close>; a Go string is never NULL, so
  the only constraint a row of the source can violate is the uniqueness of its URL.
\<close>

type_synonym articles = "NewsArticle list"

datatype error =
    OpenFailed
  | HeaderReadFailed
  | InvalidHeader nat nat
  | DatabaseNil

text \<open>
  The statement \<^verbatim>\<open>INSERT OR IGNORE INTO articles(...) VALUES(...)\<close>: a row whose URL is
  already in the table is dropped without an error, any other row is added.
\<close>

definition insertOrIgnore :: "NewsArticle \<Rightarrow> articles \<Rightarrow> articles" where
  "insertOrIgnore row db = (if \<exists>r \<in> set db. URL r = URL row then db else db @ [row])"



section \<open>Threat aggregator\<close>





section \<open>Query\<close>

text \<open>
  The zero value of \<^verbatim>\<open>time.Time\<close> (January 1 of year 1, 00:00:00 UTC) in seconds from
  1970, and \<^verbatim>\<open>IsZero\<close>.
\<close>

definition zeroTime :: time where
  "zeroTime = - 62135596800"

definition IsZero :: "time \<Rightarrow> bool" where
  "IsZero t = (t = zeroTime)"

text \<open>SQL's \<^verbatim>\<open>LOWER\<close>: the ASCII letters are folded, every other byte is kept.\<close>

definition LOWER :: "string \<Rightarrow> string" where
  "LOWER s = map lower_char s"

text \<open>
  SQL's \<^verbatim>\<open>text LIKE pattern\<close>, the pattern first: \<^verbatim>\<open>%\<close> stands for any run of
  bytes, \<^verbatim>\<open>_\<close> for any one byte, and any other byte for itself, up to the case of
  ASCII letters.
\<close>

fun like :: "string \<Rightarrow> string \<Rightarrow> bool" where
  "like [] s = (s = [])"
| "like (p # ps) [] = (p = CHR ''%'' \<and> like ps [])"
| "like (p # ps) (c # cs) =
     (if p = CHR ''%'' then like ps (c # cs) \<or> like (p # ps) cs
      else if p = CHR ''_'' then like ps cs
      else lower_char p = lower_char c \<and> like ps cs)"

text \<open>
  The column \<^verbatim>\<open>publishedAt\<close> holds the text that the driver writes for a
  \<^verbatim>\<open>time.Time\<close>, in the layout \<^verbatim>\<open>2006-01-02 15:04:05.999999999-07:00\<close>: the 19
  bytes of the date and the time to the second, then the fraction of the second, if
  there is one, and the offset of the zone. The bound of a query is formatted with
  the layout \<^verbatim>\<open>2006-01-02 15:04:05\<close>: the 19 bytes alone. A text is written here as
  its second, which orders the first 19 bytes as the bytes themselves do, and the
  bytes after them.
\<close>

type_synonym timeText = "time \<times> string"

definition driverText :: "time \<Rightarrow> timeText" where
  "driverText t = (t, ''+00:00'')"

definition formatBound :: "time \<Rightarrow> timeText" where
  "formatBound t = (t, [])"

text \<open>
  The order in which the store compares two texts: byte by byte, and a text that is
  the beginning of another comes before it.
\<close>

fun bytesLE :: "string \<Rightarrow> string \<Rightarrow> bool" where
  "bytesLE [] ys = True"
| "bytesLE (x # xs) [] = False"
| "bytesLE (x # xs) (y # ys) =
     ((of_char x :: nat) < of_char y \<or> (x = y \<and> bytesLE xs ys))"

definition textLE :: "timeText \<Rightarrow> timeText \<Rightarrow> bool" where
  "textLE a b = (fst a < fst b \<or> (fst a = fst b \<and> bytesLE (snd a) (snd b)))"

text \<open>
  The conditions \<^verbatim>\<open>GetArticlesFromDB\<close> appends to \<^verbatim>\<open>whereClauses\<close>, each with its
  argument bound, in the order of the source: \<^verbatim>\<open>publishedAt >= ?\<close> and
  \<^verbatim>\<open>publishedAt <= ?\<close> compare the text of the row with the text of the bound.
  \<open>toLower\<close> is Go's \<^verbatim>\<open>strings.ToLower\<close>.
\<close>

definition whereClauses ::
  "(string \<Rightarrow> string) \<Rightarrow> string \<Rightarrow> string \<Rightarrow> string \<Rightarrow> time \<Rightarrow> time
     \<Rightarrow> (NewsArticle \<Rightarrow> bool) list" where
  "whereClauses toLower sourceFilter categoryFilter searchFilter startDate endDate =
     (if sourceFilter \<noteq> [] \<and> sourceFilter \<noteq> ''all''
      then [\<lambda>r. SourceURL r = sourceFilter] else []) @
     (if categoryFilter \<noteq> [] \<and> categoryFilter \<noteq> ''all''
      then [\<lambda>r. Category r = categoryFilter] else []) @
     (if searchFilter \<noteq> []
      then (let searchPattern = ''%'' @ toLower searchFilter @ ''%''
            in [\<lambda>r. like searchPattern (LOWER (Title r)) \<or>
                      like searchPattern (LOWER (Description r))])
      else []) @
     (if \<not> IsZero startDate
      then [\<lambda>r. textLE (formatBound startDate) (driverText (PublishedAt r))] else []) @
     (if \<not> IsZero endDate
      then [\<lambda>r. textLE (driverText (PublishedAt r)) (formatBound endDate)] else [])"

text \<open>
  \<^verbatim>\<open>ORDER BY rank DESC\<close> and \<^verbatim>\<open>ORDER BY publishedAt DESC\<close>; rows with equal keys
  are kept in the order of the table.
\<close>

definition orderBy :: "string \<Rightarrow> articles \<Rightarrow> articles" where
  "orderBy sortBy rows =
     (if sortBy = ''rank'' then sort_key (\<lambda>r. - Rank r) rows
      else sort_key (\<lambda>r. - PublishedAt r) rows)"

text \<open>\<^verbatim>\<open>LIMIT ?\<close>, added to the query when \<^verbatim>\<open>limit > 0\<close>.\<close>

definition limitRows :: "int \<Rightarrow> articles \<Rightarrow> articles" where
  "limitRows limit rows = (if limit > 0 then take (nat limit) rows else rows)"

text \<open>
  \<^verbatim>\<open>GetArticlesFromDB\<close>; the database handle is \<open>None\<close> when \<^verbatim>\<open>db == nil\<close>. The
  conditions are joined by \<^verbatim>\<open>AND\<close>. \<open>toLower\<close> is Go's \<^verbatim>\<open>strings.ToLower\<close>.
\<close>

definition GetArticlesFromDB ::
  "(string \<Rightarrow> string) \<Rightarrow> articles option \<Rightarrow> string \<Rightarrow> string \<Rightarrow> string \<Rightarrow> int
     \<Rightarrow> time \<Rightarrow> time \<Rightarrow> string \<Rightarrow> error + articles" where
  "GetArticlesFromDB toLower db sourceFilter categoryFilter searchFilter limit startDate endDate
       sortBy =
     (case db of
        None \<Rightarrow> Inl DatabaseNil
      | Some tbl \<Rightarrow>
          (let cs = whereClauses toLower sourceFilter categoryFilter searchFilter startDate
                      endDate
           in Inr (limitRows limit (orderBy sortBy (filter (\<lambda>r. \<forall>c \<in> set cs. c r) tbl)))))"

section \<open>Import\<close>

text \<open>
  \<^verbatim>\<open>strconv.Atoi\<close>: an optional sign, then one or more decimal digits, with a value
  that fits a 64-bit \<^verbatim>\<open>int\<close>; anything else is an error.
\<close>

definition digit_val :: "char \<Rightarrow> int option" where
  "digit_val c =
     (let n = (of_char c :: int) in if 48 \<le> n \<and> n \<le> 57 then Some (n - 48) else None)"

fun digits_val :: "string \<Rightarrow> int \<Rightarrow> int option" where
  "digits_val [] acc = Some acc"
| "digits_val (c # cs) acc =
     (case digit_val c of None \<Rightarrow> None | Some d \<Rightarrow> digits_val cs (10 * acc + d))"

definition Atoi :: "string \<Rightarrow> int option" where
  "Atoi s =
     (let (neg, ds) =
            (case s of
               [] \<Rightarrow> (False, s)
             | c # cs \<Rightarrow>
                 if c = CHR ''-'' then (True, cs)
                 else if c = CHR ''+'' then (False, cs)
                 else (False, s))
      in if ds = [] then None
         else (case digits_val ds 0 of
                 None \<Rightarrow> None
               | Some n \<Rightarrow>
                   (let v = (if neg then - n else n)
                    in if v < - (2 ^ 63) \<or> 2 ^ 63 - 1 < v then None else Some v)))"

text \<open>
  The strict reading of a time in the layout \<^verbatim>\<open>time.RFC3339\<close> that \<^verbatim>\<open>time.Parse\<close> tries
  first (\<^verbatim>\<open>parseRFC3339\<close> of Go's package \<^verbatim>\<open>time\<close>), in seconds from 1970: the date
  and the time at fixed places, a fraction of a second, which is dropped here, and
  \<^verbatim>\<open>Z\<close> or an offset \<^verbatim>\<open>+hh:mm\<close> or \<^verbatim>\<open>-hh:mm\<close>.
\<close>

definition parseUint :: "string \<Rightarrow> int \<Rightarrow> int \<Rightarrow> int option" where
  "parseUint s lo hi =
     (case digits_val s 0 of
        None \<Rightarrow> None
      | Some x \<Rightarrow> if x < lo \<or> hi < x then None else Some x)"

definition isLeap :: "int \<Rightarrow> bool" where
  "isLeap year = (year mod 4 = 0 \<and> (year mod 100 \<noteq> 0 \<or> year mod 400 = 0))"

definition daysIn :: "int \<Rightarrow> int \<Rightarrow> int" where
  "daysIn month year =
     (if month = 2 then (if isLeap year then 29 else 28)
      else if month = 4 \<or> month = 6 \<or> month = 9 \<or> month = 11 then 30
      else 31)"

text \<open>The days from January 1, 1970 to a day of the Gregorian calendar.\<close>

definition daysFromCivil :: "int \<Rightarrow> int \<Rightarrow> int \<Rightarrow> int" where
  "daysFromCivil year month day =
     (let y = (if month \<le> 2 then year - 1 else year);
          era = y div 400;
          yoe = y - era * 400;
          doy = (153 * (if month > 2 then month - 3 else month + 9) + 2) div 5 + day - 1;
          doe = yoe * 365 + yoe div 4 - yoe div 100 + doy
      in era * 146097 + doe - 719468)"

definition isDigit :: "char \<Rightarrow> bool" where
  "isDigit c = (digit_val c \<noteq> None)"

definition parseZone :: "string \<Rightarrow> int option" where
  "parseZone s =
     (if s = ''Z'' then Some 0
      else if length s \<noteq> 6 then None
      else (case (parseUint (take 2 (drop 1 s)) 0 23, parseUint (take 2 (drop 4 s)) 0 59) of
              (Some hr, Some mm) \<Rightarrow>
                if (s ! 0 = CHR ''-'' \<or> s ! 0 = CHR ''+'') \<and> s ! 3 = CHR '':''
                then Some ((if s ! 0 = CHR ''-'' then - 1 else 1) * ((hr * 60 + mm) * 60))
                else None
            | _ \<Rightarrow> None))"

definition parseRFC3339 :: "string \<Rightarrow> time option" where
  "parseRFC3339 s =
     (if length s < 19 then None
      else (case parseUint (take 4 s) 0 9999 of
        None \<Rightarrow> None
      | Some year \<Rightarrow>
      (case parseUint (take 2 (drop 5 s)) 1 12 of
        None \<Rightarrow> None
      | Some month \<Rightarrow>
      (case (parseUint (take 2 (drop 8 s)) 1 (daysIn month year),
             parseUint (take 2 (drop 11 s)) 0 23,
             parseUint (take 2 (drop 14 s)) 0 59,
             parseUint (take 2 (drop 17 s)) 0 59) of
        (Some day, Some hour, Some minute, Some sec) \<Rightarrow>
          if \<not> (s ! 4 = CHR ''-'' \<and> s ! 7 = CHR ''-'' \<and> s ! 10 = CHR ''T'' \<and>
                 s ! 13 = CHR '':'' \<and> s ! 16 = CHR '':'')
          then None
          else (let s1 = drop 19 s;
                    s2 = (if length s1 \<ge> 2 \<and> s1 ! 0 = CHR ''.'' \<and> isDigit (s1 ! 1)
                          then dropWhile isDigit (drop 1 s1) else s1)
                in (case parseZone s2 of
                      None \<Rightarrow> None
                    | Some zoneOffset \<Rightarrow>
                        Some (daysFromCivil year month day * 86400 + hour * 3600
                                + minute * 60 + sec - zoneOffset)))
      | _ \<Rightarrow> None))))"

text \<open>
  What \<^verbatim>\<open>csv.Reader\<close> finds at each call of \<^verbatim>\<open>Read\<close> before the end of the file: the
  fields of a record, or a record it cannot parse.
\<close>

datatype csv_line = Fields "string list" | Malformed

datatype csv_error = ErrFieldCount | ErrParse

text \<open>
  \<^verbatim>\<open>Read\<close> after the first record, which has set the number of fields per record to
  \<open>n\<close> (\<^verbatim>\<open>FieldsPerRecord\<close> is 0 in a new reader): a record with another number of
  fields comes with the error \<^verbatim>\<open>ErrFieldCount\<close>.
\<close>

definition readRecord :: "nat \<Rightarrow> csv_line \<Rightarrow> csv_error + string list" where
  "readRecord n l =
     (case l of
        Malformed \<Rightarrow> Inl ErrParse
      | Fields record \<Rightarrow> if length record \<noteq> n then Inl ErrFieldCount else Inr record)"

text \<open>
  The loop of \<^verbatim>\<open>LoadArticlesFromCSV\<close> over the records after the header, with the
  table and \<^verbatim>\<open>importedCount\<close>. \<open>parseTime\<close> is \<^verbatim>\<open>time.Parse(time.RFC3339, _)\<close>, and
  \<open>None\<close> its error. Each \<^verbatim>\<open>continue\<close> of the source is a branch that leaves the
  table as it is. The indices read, 0 to 7, are inside a record of 8 fields.
\<close>

fun importLoop ::
  "(string \<Rightarrow> time option) \<Rightarrow> nat \<Rightarrow> csv_line list \<Rightarrow> articles \<times> int \<Rightarrow> articles \<times> int" where
  "importLoop parseTime n [] (db, importedCount) = (db, importedCount)"
| "importLoop parseTime n (l # ls) (db, importedCount) =
     importLoop parseTime n ls
       (case readRecord n l of
          Inl err \<Rightarrow> (db, importedCount)
        | Inr record \<Rightarrow>
            if length record \<noteq> 8 then (db, importedCount)
            else (case parseTime (record ! 5) of
                    None \<Rightarrow> (db, importedCount)
                  | Some publishedAt \<Rightarrow>
                      (case Atoi (record ! 6) of
                         None \<Rightarrow> (db, importedCount)
                       | Some rank \<Rightarrow>
                           (insertOrIgnore
                              \<lparr>Title = record ! 0, Description = record ! 1,
                               ImageURL = record ! 2, URL = record ! 3,
                               SourceURL = record ! 4, PublishedAt = publishedAt,
                               Rank = rank, Category = record ! 7\<rparr> db,
                            importedCount + 1))))"

text \<open>
  \<^verbatim>\<open>LoadArticlesFromCSV\<close>. The file is \<open>None\<close> when it cannot be opened, and else
  the records the reader finds in it, the header first. The result is the error
  returned (\<open>None\<close> for nil) and the table afterwards.
\<close>

definition LoadArticlesFromCSV ::
  "(string \<Rightarrow> time option) \<Rightarrow> csv_line list option \<Rightarrow> articles \<Rightarrow> error option \<times> articles" where
  "LoadArticlesFromCSV parseTime file db =
     (case file of
        None \<Rightarrow> (Some OpenFailed, db)
      | Some [] \<Rightarrow> (Some HeaderReadFailed, db)
      | Some (Malformed # rest) \<Rightarrow> (Some HeaderReadFailed, db)
      | Some (Fields header # rest) \<Rightarrow>
          if length header \<noteq> 8 then (Some (InvalidHeader 8 (length header)), db)
          else (None, fst (importLoop parseTime (length header) rest (db, 0))))"

section \<open>Ingestion: one fetch worker\<close>

text \<open>
  \<^verbatim>\<open>gofeed.Item\<close> and \<^verbatim>\<open>gofeed.Feed\<close>, with the fields the source reads. A nil
  pointer (\<^verbatim>\<open>Image\<close>, \<^verbatim>\<open>PublishedParsed\<close>) is \<open>None\<close>; \<open>item_Image\<close> holds the
  \<^verbatim>\<open>URL\<close> of the image.
\<close>

record Item =
  item_Title :: string
  item_Description :: string
  item_Link :: string
  item_Image :: "string option"
  item_PublishedParsed :: "time option"

record Feed =
  feed_Items :: "Item list"
  feed_PublishedParsed :: "time option"

text \<open>
  The body of the loop over \<^verbatim>\<open>feed.Items\<close> once the item has passed the language
  filter: the article sent to the channel. \<open>sanitize\<close> is \<^verbatim>\<open>p.Sanitize\<close> of the
  strip-tags policy and \<open>now\<close> what \<^verbatim>\<open>time.Now()\<close> returns at this item. The fields
  not named in the composite literal have Go's zero values.
\<close>

definition buildArticle ::
  "(string \<Rightarrow> string) \<Rightarrow> string \<Rightarrow> Feed \<Rightarrow> time \<Rightarrow> Item \<Rightarrow> NewsArticle" where
  "buildArticle sanitize source feed now item =
     (let category = getCategoryForSource source;
          article = \<lparr>Title = item_Title item,
                     Description = sanitize (item_Description item),
                     ImageURL = [],
                     URL = item_Link item,
                     SourceURL = source,
                     PublishedAt = zeroTime,
                     Rank = 0,
                     Category = category\<rparr>;
          article = article\<lparr>Rank := calculateRank article\<rparr>;
          article = (case item_Image item of
                       Some url \<Rightarrow> article\<lparr>ImageURL := url\<rparr>
                     | None \<Rightarrow> article);
          article = (case item_PublishedParsed item of
                       Some t \<Rightarrow> article\<lparr>PublishedAt := t\<rparr>
                     | None \<Rightarrow>
                         (case feed_PublishedParsed feed of
                            Some t \<Rightarrow> article\<lparr>PublishedAt := t\<rparr>
                          | None \<Rightarrow> article\<lparr>PublishedAt := now\<rparr>))
      in article)"

text \<open>
  The loop over \<^verbatim>\<open>feed.Items\<close>: the articles the worker sends, in order.
  \<open>isEnglish\<close> tells whether the detector finds \<^verbatim>\<open>lingua.English\<close> in a text, and
  \<open>clock i\<close> is the time at the \<open>i\<close>-th item of the feed.
\<close>

fun processItems ::
  "(string \<Rightarrow> string) \<Rightarrow> (string \<Rightarrow> bool) \<Rightarrow> (nat \<Rightarrow> time) \<Rightarrow> string \<Rightarrow> Feed \<Rightarrow> nat
     \<Rightarrow> Item list \<Rightarrow> NewsArticle list" where
  "processItems sanitize isEnglish clock source feed i [] = []"
| "processItems sanitize isEnglish clock source feed i (item # items) =
     (let textToDetect = item_Title item @ '' '' @ item_Description item
      in if \<not> isEnglish textToDetect
         then processItems sanitize isEnglish clock source feed (Suc i) items
         else buildArticle sanitize source feed (clock i) item
                # processItems sanitize isEnglish clock source feed (Suc i) items)"

text \<open>
  The goroutine of one source: \<open>parseURL\<close> is \<^verbatim>\<open>fp.ParseURL\<close>, and \<open>None\<close> its
  error, at which the worker returns having sent nothing.
\<close>

definition fetchWorker ::
  "(string \<Rightarrow> string) \<Rightarrow> (string \<Rightarrow> bool) \<Rightarrow> (nat \<Rightarrow> time) \<Rightarrow> (string \<Rightarrow> Feed option)
     \<Rightarrow> string \<Rightarrow> NewsArticle list" where
  "fetchWorker sanitize isEnglish clock parseURL source =
     (case parseURL source of
        None \<Rightarrow> []
      | Some feed \<Rightarrow> processItems sanitize isEnglish clock source feed 0 (feed_Items feed))"

section \<open>Ingestion: one run of \<^verbatim>\<open>fetchAndCacheNews\<close>\<close>












section \<open>Invariants of a run\<close>







section \<open>Sample inputs\<close>



text \<open>
  Stand-ins for the collaborators of a fetch worker, for the examples: a sanitizer
  that drops what stands between \<^verbatim>\<open><\<close> and \<^verbatim>\<open>>\<close>, a detector that takes a text of
  ASCII bytes for English, a clock, and a parser that knows one feed of three items:
  the first with its own time and an image, the second in another script, the third
  with neither time nor image.
\<close>

fun stripTags :: "bool \<Rightarrow> string \<Rightarrow> string" where
  "stripTags inTag [] = []"
| "stripTags inTag (c # cs) =
     (if c = CHR ''<'' then stripTags True cs
      else if c = CHR ''>'' \<and> inTag then stripTags False cs
      else if inTag then stripTags True cs
      else c # stripTags False cs)"

definition sampleSanitize :: "string \<Rightarrow> string" where
  "sampleSanitize s = stripTags False s"

definition sampleIsEnglish :: "string \<Rightarrow> bool" where
  "sampleIsEnglish s = (\<forall>c \<in> set s. (of_char c :: nat) < 128)"

definition sampleClock :: "nat \<Rightarrow> time" where
  "sampleClock i = 1705400000 + int i"

definition sampleItems :: "Item list" where
  "sampleItems =
     [\<lparr>item_Title = ''AI breakthrough report'', item_Description = ''<p>A software update</p>'',
       item_Link = ''https://overreacted.io/a'', item_Image = Some ''https://overreacted.io/a.png'',
       item_PublishedParsed = Some 1705314600\<rparr>,
      \<lparr>item_Title = [CHR 0xD0, CHR 0x9D], item_Description = '''',
       item_Link = ''https://overreacted.io/b'', item_Image = None,
       item_PublishedParsed = None\<rparr>,
      \<lparr>item_Title = ''News'', item_Description = ''plain'',
       item_Link = ''https://overreacted.io/c'', item_Image = None,
       item_PublishedParsed = None\<rparr>]"

definition sampleParseURL :: "time option \<Rightarrow> string \<Rightarrow> Feed option" where
  "sampleParseURL feedTime source =
     (if source = ''https://overreacted.io/rss.xml''
      then Some \<lparr>feed_Items = sampleItems, feed_PublishedParsed = feedTime\<rparr>
      else None)"

text \<open>
  The header and rows of the files of the tests of the import, and rows that are to
  be skipped: with three columns, with a time that is not in the layout, with a rank
  that is not a number.
\<close>

definition csvHeader :: "string list" where
  "csvHeader = [''Title'', ''Description'', ''ImageURL'', ''URL'', ''SourceURL'', ''PublishedAt'',
                ''Rank'', ''Category'']"

definition csvRow1 :: "string list" where
  "csvRow1 = [''Test Article 1'', ''Description for article 1'', ''https://img.example.com/1.jpg'',
              ''https://example.com/1'', ''https://source.example.com'', ''2024-01-15T10:30:00Z'',
              ''5'', ''Cybersecurity'']"

definition csvRow2 :: "string list" where
  "csvRow2 = [''Test Article 2'', ''Description for article 2'', ''https://img.example.com/2.jpg'',
              ''https://example.com/2'', ''https://source.example.com'', ''2024-01-16T11:30:00Z'',
              ''3'', ''Tech'']"

definition csvShortRow :: "string list" where
  "csvShortRow = [''val1'', ''val2'', ''val3'']"

definition csvBadTimeRow :: "string list" where
  "csvBadTimeRow = [''Test Article 3'', ''d'', '''', ''https://example.com/3'',
                    ''https://source.example.com'', ''2024-01-17 12:30:00'', ''1'', ''General'']"

definition csvBadRankRow :: "string list" where
  "csvBadRankRow = [''Test Article 4'', ''d'', '''', ''https://example.com/4'',
                    ''https://source.example.com'', ''2024-01-17T12:30:00Z'', ''high'', ''General'']"

definition article1 :: NewsArticle where
  "article1 =
     \<lparr>Title = ''Test Article 1'', Description = ''Description for article 1'',
      ImageURL = ''https://img.example.com/1.jpg'', URL = ''https://example.com/1'',
      SourceURL = ''https://source.example.com'', PublishedAt = 1705314600, Rank = 5,
      Category = ''Cybersecurity''\<rparr>"

text \<open>
  A table for the queries: two articles that have \<^verbatim>\<open>zero-day\<close> in the title or in the
  description, in other cases of the letters, at the times 100 and 300; one without
  it; and one with it that is older.
\<close>

definition queryA :: NewsArticle where
  "queryA = \<lparr>Title = ''Zero-Day Alert'', Description = ''x'', ImageURL = [], URL = ''a'',
             SourceURL = ''s'', PublishedAt = 100, Rank = 10, Category = ''Cybersecurity''\<rparr>"

definition queryB :: NewsArticle where
  "queryB = \<lparr>Title = ''Weekly'', Description = ''A zero-day recap'', ImageURL = [], URL = ''b'',
             SourceURL = ''s'', PublishedAt = 300, Rank = 3, Category = ''Cybersecurity''\<rparr>"

definition queryC :: NewsArticle where
  "queryC = \<lparr>Title = ''Gadgets'', Description = ''none'', ImageURL = [], URL = ''c'',
             SourceURL = ''s'', PublishedAt = 200, Rank = 1, Category = ''Tech''\<rparr>"

definition queryD :: NewsArticle where
  "queryD = \<lparr>Title = ''ZERO-DAY old'', Description = [], ImageURL = [], URL = ''d'',
             SourceURL = ''s'', PublishedAt = 50, Rank = 7, Category = ''Cybersecurity''\<rparr>"

definition queryTable :: articles where
  "queryTable = [queryA, queryB, queryC, queryD]"









section \<open>The Scorer on the examples\<close>

lemma rankLoop_sum:
  "rankLoop content ks rank =
     rank + sum_list (map (\<lambda>(keyword, w). if Contains content keyword then w else 0) ks)"
  by (induction ks arbitrary: rank) auto

lemma score_sum:
  "score c t d =
     sum_list (map (\<lambda>(keyword, w). if Contains (ToLower (t @ '' '' @ d)) keyword then w else 0)
       (keywords_of c))"
  by (simp add: score_def calculateRank_def calculateRankIn_def content_of_def rankLoop_sum)

text \<open>
  C4. The score of the Cybersecurity example is 24 and that of the Tech example is 5.
  The keywords found in the two texts are the six and the five the specification
  names, and the score of any category, title and description is the sum, over the
  entries of the category's table, of the weight of each keyword that occurs in the
  lowercased text \<open>title @ '' '' @ description\<close>: every keyword counts once, and a
  keyword that overlaps another counts beside it.
\<close>

theorem score_examples:
  "score ''Cybersecurity'' ''Critical zero-day exploit found''
      ''Active attack with ransomware attack confirmed.'' = 24
   \<and> score ''Tech'' ''Review of the new gadget''
      ''Here are some tips for this software update.'' = 5
   \<and> [k \<leftarrow> map fst (keywords_of ''Cybersecurity'').
        Contains (ToLower (''Critical zero-day exploit found'' @ '' '' @
                          ''Active attack with ransomware attack confirmed.'')) k]
      = [''zero-day'', ''active attack'', ''ransomware attack'', ''exploit'', ''attack'',
         ''ransomware'']
   \<and> [k \<leftarrow> map fst (keywords_of ''Tech'').
        Contains (ToLower (''Review of the new gadget'' @ '' '' @
                          ''Here are some tips for this software update.'')) k]
      = [''review'', ''gadget'', ''software'', ''update'', ''tips'']
   \<and> (\<forall>c t d. score c t d =
         sum_list (map (\<lambda>(keyword, w).
                          if Contains (ToLower (t @ '' '' @ d)) keyword then w else 0)
                    (keywords_of c)))"
proof (intro conjI)
  show "score ''Cybersecurity'' ''Critical zero-day exploit found''
      ''Active attack with ransomware attack confirmed.'' = 24"
    by code_simp
  show "score ''Tech'' ''Review of the new gadget''
      ''Here are some tips for this software update.'' = 5"
    by code_simp
  show "[k \<leftarrow> map fst (keywords_of ''Cybersecurity'').
        Contains (ToLower (''Critical zero-day exploit found'' @ '' '' @
                          ''Active attack with ransomware attack confirmed.'')) k]
      = [''zero-day'', ''active attack'', ''ransomware attack'', ''exploit'', ''attack'',
         ''ransomware'']"
    by code_simp
  show "[k \<leftarrow> map fst (keywords_of ''Tech'').
        Contains (ToLower (''Review of the new gadget'' @ '' '' @
                          ''Here are some tips for this software update.'')) k]
      = [''review'', ''gadget'', ''software'', ''update'', ''tips'']"
    by code_simp
  show "\<forall>c t d. score c t d =
         sum_list (map (\<lambda>(keyword, w).
                          if Contains (ToLower (t @ '' '' @ d)) keyword then w else 0)
                    (keywords_of c))"
    by (simp add: score_sum)
qed

section \<open>The threat aggregator\<close>




section \<open>Insert if absent\<close>


lemma insertOrIgnore_absent:
  "\<forall>r \<in> set db. URL r \<noteq> URL a \<Longrightarrow> insertOrIgnore a db = db @ [a]"
  by (auto simp: insertOrIgnore_def)


lemma insertOrIgnore_distinct:
  "distinct (map URL db) \<Longrightarrow> distinct (map URL (insertOrIgnore a db))"
  by (auto simp: insertOrIgnore_def)



section \<open>The classifier on the configured feeds\<close>

lemma getCategoryForSource_labels:
  "getCategoryForSource s \<in> {''Cybersecurity'', ''Tech'', ''Defense'', ''General''}"
  by (simp add: getCategoryForSource_def)

lemma calculateRank_General:
  "Category a = ''General'' \<Longrightarrow> calculateRank a = calculateRankIn generalKeywords a"
  by (simp add: calculateRank_def keywords_of_def)

text \<open>
  C7. Four of the configured feeds are classified \<^verbatim>\<open>General\<close> and not \<^verbatim>\<open>Tech\<close>: the
  table of tech sources has each of them with \<^verbatim>\<open>.com\<close> in the place of \<^verbatim>\<open>.xml\<close>.
  They are the only configured feeds classified \<^verbatim>\<open>General\<close>, and the rank of an
  article built from an item of one of them is computed with the table of the keywords
  \<^verbatim>\<open>news\<close>, \<^verbatim>\<open>update\<close> and \<^verbatim>\<open>report\<close>.
\<close>

theorem misspelled_tech_sources_are_General:
  "[s \<leftarrow> RssSources. getCategoryForSource s = ''General''] =
     [''http://www.fastcodesign.com/rss.xml'', ''https://githubengineering.com/atom.xml'',
      ''https://overreacted.io/rss.xml'', ''https://signal.org/blog/rss.xml'']
   \<and> [s \<leftarrow> RssSources. getCategoryForSource s = ''Tech''] =
     [''https://www.theverge.com/rss/index.xml'', ''https://techcrunch.com/feed/'',
      ''https://arstechnica.com/feed/'', ''http://www.engadget.com/rss-full.xml'',
      ''http://www.forbes.com/entrepreneurs/index.xml'',
      ''https://blog.pragmaticengineer.com/rss/'', ''https://browser.engineering/rss.xml'',
      ''https://joshwcomeau.com/rss.xml'', ''https://jvns.ca/atom.xml'',
      ''https://slack.engineering/feed'', ''https://stripe.com/blog/feed.rss'']
   \<and> [s \<leftarrow> techSources. s \<notin> set RssSources] =
     [''http://www.fastcodesign.com/rss.com'', ''https://githubengineering.com/atom.com'',
      ''https://overreacted.io/rss.com'', ''https://signal.org/blog/rss.com'']
   \<and> keywords_of ''General'' = [(''news'', 1), (''update'', 1), (''report'', 1)]
   \<and> (\<forall>s \<in> set [''http://www.fastcodesign.com/rss.xml'',
                  ''https://githubengineering.com/atom.xml'',
                  ''https://overreacted.io/rss.xml'', ''https://signal.org/blog/rss.xml''].
         \<forall>sanitize feed now item.
           Category (buildArticle sanitize s feed now item) = ''General''
           \<and> Rank (buildArticle sanitize s feed now item) =
               calculateRankIn [(''news'', 1), (''update'', 1), (''report'', 1)]
                 (buildArticle sanitize s feed now item))"
proof (intro conjI)
  show "[s \<leftarrow> RssSources. getCategoryForSource s = ''General''] =
     [''http://www.fastcodesign.com/rss.xml'', ''https://githubengineering.com/atom.xml'',
      ''https://overreacted.io/rss.xml'', ''https://signal.org/blog/rss.xml'']"
    by code_simp
  show "[s \<leftarrow> RssSources. getCategoryForSource s = ''Tech''] =
     [''https://www.theverge.com/rss/index.xml'', ''https://techcrunch.com/feed/'',
      ''https://arstechnica.com/feed/'', ''http://www.engadget.com/rss-full.xml'',
      ''http://www.forbes.com/entrepreneurs/index.xml'',
      ''https://blog.pragmaticengineer.com/rss/'', ''https://browser.engineering/rss.xml'',
      ''https://joshwcomeau.com/rss.xml'', ''https://jvns.ca/atom.xml'',
      ''https://slack.engineering/feed'', ''https://stripe.com/blog/feed.rss'']"
    by code_simp
  show "[s \<leftarrow> techSources. s \<notin> set RssSources] =
     [''http://www.fastcodesign.com/rss.com'', ''https://githubengineering.com/atom.com'',
      ''https://overreacted.io/rss.com'', ''https://signal.org/blog/rss.com'']"
    by code_simp
  show "keywords_of ''General'' = [(''news'', 1), (''update'', 1), (''report'', 1)]"
    by (simp add: keywords_of_def generalKeywords_def)
  show "\<forall>s \<in> set [''http://www.fastcodesign.com/rss.xml'',
                  ''https://githubengineering.com/atom.xml'',
                  ''https://overreacted.io/rss.xml'', ''https://signal.org/blog/rss.xml''].
         \<forall>sanitize feed now item.
           Category (buildArticle sanitize s feed now item) = ''General''
           \<and> Rank (buildArticle sanitize s feed now item) =
               calculateRankIn [(''news'', 1), (''update'', 1), (''report'', 1)]
                 (buildArticle sanitize s feed now item)"
  proof (intro ballI allI)
    fix s sanitize feed now item
    assume s: "s \<in> set [''http://www.fastcodesign.com/rss.xml'',
                  ''https://githubengineering.com/atom.xml'',
                  ''https://overreacted.io/rss.xml'', ''https://signal.org/blog/rss.xml'']"
    have "\<forall>s \<in> set [''http://www.fastcodesign.com/rss.xml'',
                  ''https://githubengineering.com/atom.xml'',
                  ''https://overreacted.io/rss.xml'', ''https://signal.org/blog/rss.xml''].
            getCategoryForSource s = ''General''"
      by code_simp
    with s have g: "getCategoryForSource s = ''General''"
      by blast
    show "Category (buildArticle sanitize s feed now item) = ''General''
           \<and> Rank (buildArticle sanitize s feed now item) =
               calculateRankIn [(''news'', 1), (''update'', 1), (''report'', 1)]
                 (buildArticle sanitize s feed now item)"
      using g
      by (simp add: buildArticle_def Let_def calculateRank_def calculateRankIn_def
            keywords_of_def generalKeywords_def content_of_def
          split: option.splits)
  qed
qed

text \<open>
  The theorem at the first item of the sample feed, taken from one of the four feeds:
  its rank is 2, for \<^verbatim>\<open>report\<close> and \<^verbatim>\<open>update\<close>, where the table of the tech keywords
  would give 12.
\<close>

theorem misspelled_tech_sources_are_General_witness:
  "''https://overreacted.io/rss.xml'' \<in> set RssSources
   \<and> getCategoryForSource ''https://overreacted.io/rss.xml'' = ''General''
   \<and> Category (buildArticle sampleSanitize ''https://overreacted.io/rss.xml''
                 \<lparr>feed_Items = sampleItems, feed_PublishedParsed = None\<rparr> 0 (sampleItems ! 0))
       = ''General''
   \<and> Rank (buildArticle sampleSanitize ''https://overreacted.io/rss.xml''
             \<lparr>feed_Items = sampleItems, feed_PublishedParsed = None\<rparr> 0 (sampleItems ! 0)) = 2
   \<and> calculateRankIn (keywords_of ''Tech'')
         (buildArticle sampleSanitize ''https://overreacted.io/rss.xml''
             \<lparr>feed_Items = sampleItems, feed_PublishedParsed = None\<rparr> 0 (sampleItems ! 0)) = 12"
proof -
  let ?a = "buildArticle sampleSanitize ''https://overreacted.io/rss.xml''
              \<lparr>feed_Items = sampleItems, feed_PublishedParsed = None\<rparr> 0 (sampleItems ! 0)"
  have mem: "''https://overreacted.io/rss.xml'' \<in>
               set [''http://www.fastcodesign.com/rss.xml'',
                    ''https://githubengineering.com/atom.xml'',
                    ''https://overreacted.io/rss.xml'', ''https://signal.org/blog/rss.xml'']"
    by simp
  have src: "''https://overreacted.io/rss.xml'' \<in> set RssSources"
    by code_simp
  have cat: "getCategoryForSource ''https://overreacted.io/rss.xml'' = ''General''"
    by code_simp
  have g: "calculateRankIn [(''news'', 1), (''update'', 1), (''report'', 1)] ?a = 2"
    by code_simp
  have t: "calculateRankIn (keywords_of ''Tech'') ?a = 12"
    by code_simp
  from misspelled_tech_sources_are_General mem
  have "Category ?a = ''General'' \<and>
        Rank ?a = calculateRankIn [(''news'', 1), (''update'', 1), (''report'', 1)] ?a"
    by blast
  with src cat g t show ?thesis
    by simp
qed

section \<open>The Scorer: order of the table, monotonicity, bounds\<close>

lemma keywords_of_positive: "(k, w) \<in> set (keywords_of c) \<Longrightarrow> 0 < w"
  by (auto simp: keywords_of_def cybersecurityKeywords_def techKeywords_def generalKeywords_def
      split: if_splits)

lemma keywords_of_distinct: "distinct (map fst (keywords_of c))"
  by (simp add: keywords_of_def cybersecurityKeywords_def techKeywords_def generalKeywords_def)

lemma rankLoop_order:
  assumes "mset ks = mset ks'"
  shows "rankLoop content ks rank = rankLoop content ks' rank"
proof -
  let ?f = "\<lambda>(keyword, w). if Contains content keyword then w else (0::int)"
  have "sum_list (map ?f ks) = sum_mset (image_mset ?f (mset ks))"
    by (metis mset_map sum_mset_sum_list)
  also have "\<dots> = sum_mset (image_mset ?f (mset ks'))"
    using assms by simp
  also have "\<dots> = sum_list (map ?f ks')"
    by (metis mset_map sum_mset_sum_list)
  finally show ?thesis
    by (simp add: rankLoop_sum)
qed

text \<open>\<^verbatim>\<open>strings.Contains\<close> as a property: the text is some bytes, the substring, some bytes.\<close>

lemma Contains_iff: "Contains s sub \<longleftrightarrow> (\<exists>ps ss. s = ps @ sub @ ss)"
proof (induction s)
  case Nil
  then show ?case by auto
next
  case (Cons c cs)
  show ?case
  proof
    assume "Contains (c # cs) sub"
    then consider "prefix sub (c # cs)" | "Contains cs sub" by auto
    then show "\<exists>ps ss. c # cs = ps @ sub @ ss"
    proof cases
      case 1
      then obtain ss where "c # cs = sub @ ss" by (auto simp: prefix_def)
      then have "c # cs = [] @ sub @ ss" by simp
      then show ?thesis by blast
    next
      case 2
      with Cons.IH obtain ps ss where "cs = ps @ sub @ ss" by blast
      then have "c # cs = (c # ps) @ sub @ ss" by simp
      then show ?thesis by blast
    qed
  next
    assume "\<exists>ps ss. c # cs = ps @ sub @ ss"
    then obtain ps ss where eq: "c # cs = ps @ sub @ ss" by blast
    show "Contains (c # cs) sub"
    proof (cases ps)
      case Nil
      with eq have "prefix sub (c # cs)" by (simp add: prefix_def)
      then show ?thesis by simp
    next
      case (Cons p ps')
      with eq have "cs = ps' @ sub @ ss" by simp
      with Cons.IH have "Contains cs sub" by blast
      then show ?thesis by simp
    qed
  qed
qed

lemma Contains_append_right: "Contains s sub \<Longrightarrow> Contains (s @ extra) sub"
  unfolding Contains_iff by (metis append.assoc)

lemma score_mono:
  assumes "\<forall>k \<in> fst ` set (keywords_of c).
             Contains (ToLower (t @ '' '' @ d)) k \<longrightarrow> Contains (ToLower (t' @ '' '' @ d')) k"
  shows "score c t d \<le> score c t' d'"
  unfolding score_sum
proof (rule sum_list_mono)
  fix x assume x: "x \<in> set (keywords_of c)"
  obtain k w where kw: "x = (k, w)" by (cases x)
  with x have "0 < w" using keywords_of_positive by blast
  moreover have "Contains (ToLower (t @ '' '' @ d)) k \<longrightarrow> Contains (ToLower (t' @ '' '' @ d')) k"
    using assms x kw by force
  ultimately show
    "(case x of (keyword, w) \<Rightarrow> if Contains (ToLower (t @ '' '' @ d)) keyword then w else 0)
       \<le> (case x of (keyword, w) \<Rightarrow>
             if Contains (ToLower (t' @ '' '' @ d')) keyword then w else 0)"
    using kw by auto
qed

text \<open>
  The rank is between 0 and 80, the sum of the largest table: the additions of the
  loop stay far inside Go's \<^verbatim>\<open>int\<close>.
\<close>

lemma score_bounds: "0 \<le> score c t d \<and> score c t d \<le> 80"
proof -
  let ?f = "\<lambda>(keyword, w). if Contains (ToLower (t @ '' '' @ d)) keyword then w else (0::int)"
  have lo: "0 \<le> sum_list (map ?f (keywords_of c))"
    by (rule sum_list_nonneg) (use keywords_of_positive in force)
  have "sum_list (map ?f (keywords_of c)) \<le> sum_list (map snd (keywords_of c))"
    by (rule sum_list_mono) (use keywords_of_positive in force)
  also have "\<dots> \<le> 80"
    by (simp add: keywords_of_def cybersecurityKeywords_def techKeywords_def generalKeywords_def)
  finally show ?thesis using lo by (simp add: score_sum)
qed

lemma calculateRank_score:
  "calculateRank a = score (Category a) (Title a) (Description a)"
  by (simp add: score_def calculateRank_def calculateRankIn_def content_of_def)

lemma calculateRank_bounds: "0 \<le> calculateRank a \<and> calculateRank a \<le> 80"
  by (simp add: calculateRank_score score_bounds)

text \<open>
  C8. The score is a function of the category, the title and the description alone:
  in whatever order the loop visits the entries of the table, it returns the score.
  The score does not decrease when the set of matched keywords grows: if every
  keyword of the table found in the first text is found in the second, the score of
  the second is at least that of the first; so text added at the end of the
  description never lowers the score.
\<close>

theorem score_deterministic_monotone:
  "(\<forall>ks. mset ks = mset (keywords_of c) \<longrightarrow>
          rankLoop (ToLower (t @ '' '' @ d)) ks 0 = score c t d)
   \<and> ((\<forall>k \<in> fst ` set (keywords_of c).
          Contains (ToLower (t @ '' '' @ d)) k \<longrightarrow> Contains (ToLower (t' @ '' '' @ d')) k)
        \<longrightarrow> score c t d \<le> score c t' d')
   \<and> score c t d \<le> score c t (d @ extra)"
proof (intro conjI allI impI)
  fix ks :: "(string \<times> int) list"
  assume "mset ks = mset (keywords_of c)"
  then have "rankLoop (ToLower (t @ '' '' @ d)) ks 0
               = rankLoop (ToLower (t @ '' '' @ d)) (keywords_of c) 0"
    by (rule rankLoop_order)
  then show "rankLoop (ToLower (t @ '' '' @ d)) ks 0 = score c t d"
    by (simp add: score_def calculateRank_def calculateRankIn_def content_of_def)
next
  assume "\<forall>k \<in> fst ` set (keywords_of c).
            Contains (ToLower (t @ '' '' @ d)) k \<longrightarrow> Contains (ToLower (t' @ '' '' @ d')) k"
  then show "score c t d \<le> score c t' d'"
    by (rule score_mono)
next
  have "ToLower (t @ '' '' @ d @ extra) = ToLower (t @ '' '' @ d) @ ToLower extra"
    by (simp add: ToLower_def)
  then have "\<forall>k \<in> fst ` set (keywords_of c).
               Contains (ToLower (t @ '' '' @ d)) k \<longrightarrow>
               Contains (ToLower (t @ '' '' @ d @ extra)) k"
    by (simp add: Contains_append_right)
  then show "score c t d \<le> score c t (d @ extra)"
    by (rule score_mono)
qed

text \<open>
  The theorem at a Cybersecurity text to which \<^verbatim>\<open>ransomware\<close> is added, with the
  table visited backwards: the keywords found before are found after, and the score
  goes from 6 to 9.
\<close>

theorem score_deterministic_monotone_witness:
  "mset (rev (keywords_of ''Cybersecurity'')) = mset (keywords_of ''Cybersecurity'')
   \<and> rankLoop (ToLower (''Security alert'' @ '' '' @ ''A new'')) (rev (keywords_of ''Cybersecurity'')) 0
       = score ''Cybersecurity'' ''Security alert'' ''A new''
   \<and> score ''Cybersecurity'' ''Security alert'' ''A new'' = 6
   \<and> score ''Cybersecurity'' ''Security alert'' ''A new ransomware'' = 9
   \<and> score ''Cybersecurity'' ''Security alert'' ''A new''
       \<le> score ''Cybersecurity'' ''Security alert'' ''A new ransomware''"
proof -
  have perm: "mset (rev (keywords_of ''Cybersecurity'')) = mset (keywords_of ''Cybersecurity'')"
    by simp
  have sub: "\<forall>k \<in> fst ` set (keywords_of ''Cybersecurity'').
          Contains (ToLower (''Security alert'' @ '' '' @ ''A new'')) k \<longrightarrow>
          Contains (ToLower (''Security alert'' @ '' '' @ ''A new ransomware'')) k"
    by code_simp
  have s6: "score ''Cybersecurity'' ''Security alert'' ''A new'' = 6"
    by code_simp
  have s9: "score ''Cybersecurity'' ''Security alert'' ''A new ransomware'' = 9"
    by code_simp
  note inst = score_deterministic_monotone
    [of "''Cybersecurity''" "''Security alert''" "''A new''" "''Security alert''"
        "''A new ransomware''" "'' ransomware''"]
  from inst perm have "rankLoop (ToLower (''Security alert'' @ '' '' @ ''A new''))
        (rev (keywords_of ''Cybersecurity'')) 0 = score ''Cybersecurity'' ''Security alert'' ''A new''"
    by blast
  moreover from inst sub have "score ''Cybersecurity'' ''Security alert'' ''A new''
       \<le> score ''Cybersecurity'' ''Security alert'' ''A new ransomware''"
    by blast
  ultimately show ?thesis
    using perm s6 s9 by blast
qed

section \<open>The articles a fetch worker builds\<close>

lemma buildArticle_fields:
  "Title (buildArticle sanitize source feed now item) = item_Title item"
  "Description (buildArticle sanitize source feed now item) = sanitize (item_Description item)"
  "URL (buildArticle sanitize source feed now item) = item_Link item"
  "SourceURL (buildArticle sanitize source feed now item) = source"
  "Category (buildArticle sanitize source feed now item) = getCategoryForSource source"
  "ImageURL (buildArticle sanitize source feed now item) =
     (case item_Image item of Some url \<Rightarrow> url | None \<Rightarrow> [])"
  "PublishedAt (buildArticle sanitize source feed now item) =
     (case item_PublishedParsed item of
        Some t \<Rightarrow> t
      | None \<Rightarrow> (case feed_PublishedParsed feed of Some t \<Rightarrow> t | None \<Rightarrow> now))"
  by (simp_all add: buildArticle_def Let_def split: option.splits)


lemma processItems_eq:
  "processItems sanitize isEnglish clock source feed i items =
     map (\<lambda>(j, item). buildArticle sanitize source feed (clock j) item)
       (filter (\<lambda>(j, item). isEnglish (item_Title item @ '' '' @ item_Description item))
          (zip [i ..< i + length items] items))"
proof (induction items arbitrary: i)
  case Nil
  then show ?case by simp
next
  case (Cons item items)
  have "[i ..< i + length (item # items)] = i # [Suc i ..< Suc i + length items]"
    by (subst upt_rec) simp
  then show ?case
    using Cons.IH [of "Suc i"] by (simp add: Let_def)
qed

text \<open>
  C10. A worker sends one article for each item of its feed that passes the language
  filter, in the order of the feed, built from that item at the time the clock shows
  then. The time of publication of the article built from an item is the item's own
  parsed time if it has one, else the parsed time of the feed if it has one, else the
  current time; its image URL is the URL of the item's image if the item has an
  image, else empty.
\<close>

theorem built_article_time_and_image:
  "fetchWorker sanitize isEnglish clock parseURL source =
     (case parseURL source of
        None \<Rightarrow> []
      | Some feed \<Rightarrow>
          map (\<lambda>(j, item). buildArticle sanitize source feed (clock j) item)
            (filter (\<lambda>(j, item). isEnglish (item_Title item @ '' '' @ item_Description item))
               (zip [0 ..< length (feed_Items feed)] (feed_Items feed))))
   \<and> PublishedAt (buildArticle sanitize source feed now item) =
       (case item_PublishedParsed item of
          Some t \<Rightarrow> t
        | None \<Rightarrow> (case feed_PublishedParsed feed of Some t \<Rightarrow> t | None \<Rightarrow> now))
   \<and> ImageURL (buildArticle sanitize source feed now item) =
       (case item_Image item of Some url \<Rightarrow> url | None \<Rightarrow> [])"
  by (simp add: fetchWorker_def processItems_eq buildArticle_fields split: option.splits)

text \<open>
  The theorem on the sample feed, once without and once with a time of the feed: the
  first item keeps its own time and its image, the second is dropped by the filter,
  and the third, the item of index 2, gets the time of the clock or of the feed and no
  image.
\<close>

theorem built_article_time_and_image_witness:
  "map (\<lambda>a. (URL a, PublishedAt a, ImageURL a))
     (fetchWorker sampleSanitize sampleIsEnglish sampleClock (sampleParseURL None)
        ''https://overreacted.io/rss.xml'')
     = [(''https://overreacted.io/a'', 1705314600, ''https://overreacted.io/a.png''),
        (''https://overreacted.io/c'', 1705400002, [])]
   \<and> map (\<lambda>a. (URL a, PublishedAt a, ImageURL a))
     (fetchWorker sampleSanitize sampleIsEnglish sampleClock (sampleParseURL (Some 1705000000))
        ''https://overreacted.io/rss.xml'')
     = [(''https://overreacted.io/a'', 1705314600, ''https://overreacted.io/a.png''),
        (''https://overreacted.io/c'', 1705000000, [])]"
proof -
  have filt: "filter (\<lambda>(j, item). sampleIsEnglish (item_Title item @ CHR '' '' # item_Description item))
          (zip [0 ..< length sampleItems] sampleItems) = [(0, sampleItems ! 0), (2, sampleItems ! 2)]"
    by code_simp
  have w1: "fetchWorker sampleSanitize sampleIsEnglish sampleClock (sampleParseURL None)
               ''https://overreacted.io/rss.xml''
             = map (\<lambda>(j, item). buildArticle sampleSanitize ''https://overreacted.io/rss.xml''
                      \<lparr>feed_Items = sampleItems, feed_PublishedParsed = None\<rparr> (sampleClock j) item)
                 [(0, sampleItems ! 0), (2, sampleItems ! 2)]"
    using built_article_time_and_image
            [of sampleSanitize sampleIsEnglish sampleClock "sampleParseURL None"
                "''https://overreacted.io/rss.xml''"]
    by (simp add: sampleParseURL_def filt)
  have w2: "fetchWorker sampleSanitize sampleIsEnglish sampleClock (sampleParseURL (Some 1705000000))
               ''https://overreacted.io/rss.xml''
             = map (\<lambda>(j, item). buildArticle sampleSanitize ''https://overreacted.io/rss.xml''
                      \<lparr>feed_Items = sampleItems, feed_PublishedParsed = Some 1705000000\<rparr>
                      (sampleClock j) item)
                 [(0, sampleItems ! 0), (2, sampleItems ! 2)]"
    using built_article_time_and_image
            [of sampleSanitize sampleIsEnglish sampleClock "sampleParseURL (Some 1705000000)"
                "''https://overreacted.io/rss.xml''"]
    by (simp add: sampleParseURL_def filt)
  show ?thesis
    unfolding w1 w2
    by (simp add: buildArticle_fields sampleItems_def sampleClock_def)
qed

section \<open>Import from CSV\<close>

lemma importLoop_append:
  "importLoop parseTime n (xs @ ys) st = importLoop parseTime n ys (importLoop parseTime n xs st)"
proof (induction xs arbitrary: st)
  case Nil
  then show ?case by (cases st) simp
next
  case (Cons x xs)
  obtain db c where st: "st = (db, c)" by (cases st)
  show ?case unfolding st by (simp add: Cons.IH)
qed

lemma importLoop_skip:
  assumes "l = Malformed \<or>
           (\<exists>r. l = Fields r \<and> (length r \<noteq> 8 \<or> parseTime (r ! 5) = None \<or> Atoi (r ! 6) = None))"
  shows "importLoop parseTime 8 [l] st = st"
proof -
  obtain db c where st: "st = (db, c)" by (cases st)
  show ?thesis
    using assms unfolding st by (auto simp: readRecord_def split: option.splits)
qed

lemma importLoop_valid:
  assumes "length r = 8" and "parseTime (r ! 5) = Some t" and "Atoi (r ! 6) = Some k"
  shows "importLoop parseTime 8 [Fields r] (db, c) =
           (insertOrIgnore
              \<lparr>Title = r ! 0, Description = r ! 1, ImageURL = r ! 2, URL = r ! 3,
               SourceURL = r ! 4, PublishedAt = t, Rank = k, Category = r ! 7\<rparr> db,
            c + 1)"
  using assms by (simp add: readRecord_def)

lemma importLoop_fst:
  "fst (importLoop parseTime n ls (db, c)) = fst (importLoop parseTime n ls (db, c'))"
proof (induction ls arbitrary: db c c')
  case Nil
  then show ?case by simp
next
  case (Cons l ls)
  show ?case
    by (auto simp: Cons.IH split: sum.splits option.splits)
qed

text \<open>
  C5. A header that has not 8 columns makes the import return an error and leave the
  table as it was. With a header of 8 columns the import returns no error, whatever
  the rows are; a row that cannot be read or has not 8 columns, or whose time or rank
  cannot be parsed, can be taken out of the file without a change to the result, so
  it is skipped and the rows before and after it are treated as without it; and a
  row of 8 columns with a time and a rank that parse is inserted, if its URL is
  absent, into the table that the rows before it have made.
\<close>

theorem LoadArticlesFromCSV_header_and_rows:
  "(length header \<noteq> 8 \<longrightarrow>
      LoadArticlesFromCSV parseTime (Some (Fields header # rows)) db
        = (Some (InvalidHeader 8 (length header)), db))
   \<and> (length header = 8 \<longrightarrow>
      fst (LoadArticlesFromCSV parseTime (Some (Fields header # rows)) db) = None
      \<and> LoadArticlesFromCSV parseTime (Some [Fields header]) db = (None, db))
   \<and> (length header = 8 \<and>
       (l = Malformed \<or>
        (\<exists>r. l = Fields r \<and>
             (length r \<noteq> 8 \<or> parseTime (r ! 5) = None \<or> Atoi (r ! 6) = None))) \<longrightarrow>
      LoadArticlesFromCSV parseTime (Some (Fields header # before @ l # after)) db
        = LoadArticlesFromCSV parseTime (Some (Fields header # before @ after)) db)
   \<and> (length header = 8 \<and> length r = 8 \<and> parseTime (r ! 5) = Some t \<and> Atoi (r ! 6) = Some k \<longrightarrow>
      LoadArticlesFromCSV parseTime (Some (Fields header # before @ [Fields r])) db
        = (None,
           insertOrIgnore
             \<lparr>Title = r ! 0, Description = r ! 1, ImageURL = r ! 2, URL = r ! 3,
              SourceURL = r ! 4, PublishedAt = t, Rank = k, Category = r ! 7\<rparr>
             (snd (LoadArticlesFromCSV parseTime (Some (Fields header # before)) db))))"
proof (intro conjI impI)
  assume "length header \<noteq> 8"
  then show "LoadArticlesFromCSV parseTime (Some (Fields header # rows)) db
        = (Some (InvalidHeader 8 (length header)), db)"
    by (simp add: LoadArticlesFromCSV_def)
next
  assume "length header = 8"
  then show "fst (LoadArticlesFromCSV parseTime (Some (Fields header # rows)) db) = None"
    by (simp add: LoadArticlesFromCSV_def)
next
  assume "length header = 8"
  then show "LoadArticlesFromCSV parseTime (Some [Fields header]) db = (None, db)"
    by (simp add: LoadArticlesFromCSV_def)
next
  assume a: "length header = 8 \<and>
       (l = Malformed \<or>
        (\<exists>r. l = Fields r \<and>
             (length r \<noteq> 8 \<or> parseTime (r ! 5) = None \<or> Atoi (r ! 6) = None)))"
  then have skip: "importLoop parseTime 8 [l] (importLoop parseTime 8 before (db, 0))
                     = importLoop parseTime 8 before (db, 0)"
    by (intro importLoop_skip) blast
  have "importLoop parseTime 8 (before @ l # after) (db, 0)
          = importLoop parseTime 8 after
              (importLoop parseTime 8 [l] (importLoop parseTime 8 before (db, 0)))"
    using importLoop_append [of parseTime 8 before "[l] @ after" "(db, 0)"]
          importLoop_append [of parseTime 8 "[l]" after]
    by simp
  also have "\<dots> = importLoop parseTime 8 (before @ after) (db, 0)"
    by (simp add: skip importLoop_append)
  finally show "LoadArticlesFromCSV parseTime (Some (Fields header # before @ l # after)) db
        = LoadArticlesFromCSV parseTime (Some (Fields header # before @ after)) db"
    using a by (simp add: LoadArticlesFromCSV_def)
next
  assume a: "length header = 8 \<and> length r = 8 \<and> parseTime (r ! 5) = Some t \<and> Atoi (r ! 6) = Some k"
  obtain db' c' where b: "importLoop parseTime 8 before (db, 0) = (db', c')"
    by (cases "importLoop parseTime 8 before (db, 0)")
  have "importLoop parseTime 8 (before @ [Fields r]) (db, 0)
          = importLoop parseTime 8 [Fields r] (db', c')"
    by (simp add: importLoop_append b)
  also have "\<dots> = (insertOrIgnore
              \<lparr>Title = r ! 0, Description = r ! 1, ImageURL = r ! 2, URL = r ! 3,
               SourceURL = r ! 4, PublishedAt = t, Rank = k, Category = r ! 7\<rparr> db',
            c' + 1)"
    using a by (intro importLoop_valid) simp_all
  finally show "LoadArticlesFromCSV parseTime (Some (Fields header # before @ [Fields r])) db
        = (None,
           insertOrIgnore
             \<lparr>Title = r ! 0, Description = r ! 1, ImageURL = r ! 2, URL = r ! 3,
              SourceURL = r ! 4, PublishedAt = t, Rank = k, Category = r ! 7\<rparr>
             (snd (LoadArticlesFromCSV parseTime (Some (Fields header # before)) db)))"
    using a b by (simp add: LoadArticlesFromCSV_def)
qed

text \<open>
  The theorem on files made of the rows of the tests: a file with a header of three
  columns is refused and the table kept; a row of three columns, a row with a time
  out of the layout and a row with a rank that is no number are each skipped between
  two good rows; and a good row after the header is inserted.
\<close>

theorem LoadArticlesFromCSV_header_and_rows_witness:
  "LoadArticlesFromCSV parseRFC3339 (Some [Fields csvShortRow, Fields csvRow1]) [article1]
     = (Some (InvalidHeader 8 3), [article1])
   \<and> LoadArticlesFromCSV parseRFC3339
        (Some [Fields csvHeader, Fields csvRow1, Fields csvShortRow, Fields csvRow2]) []
     = LoadArticlesFromCSV parseRFC3339 (Some [Fields csvHeader, Fields csvRow1, Fields csvRow2]) []
   \<and> LoadArticlesFromCSV parseRFC3339
        (Some [Fields csvHeader, Fields csvRow1, Fields csvBadTimeRow, Fields csvRow2]) []
     = LoadArticlesFromCSV parseRFC3339 (Some [Fields csvHeader, Fields csvRow1, Fields csvRow2]) []
   \<and> LoadArticlesFromCSV parseRFC3339
        (Some [Fields csvHeader, Fields csvRow1, Fields csvBadRankRow, Fields csvRow2]) []
     = LoadArticlesFromCSV parseRFC3339 (Some [Fields csvHeader, Fields csvRow1, Fields csvRow2]) []
   \<and> LoadArticlesFromCSV parseRFC3339 (Some [Fields csvHeader, Fields csvRow1]) [] = (None, [article1])"
proof -
  have h3: "length csvShortRow \<noteq> 8" and h8: "length csvHeader = 8" and r8: "length csvRow1 = 8"
    by (simp_all add: csvShortRow_def csvHeader_def csvRow1_def)
  have badTime: "parseRFC3339 (csvBadTimeRow ! 5) = None"
    by code_simp
  have badRank: "Atoi (csvBadRankRow ! 6) = None"
    by code_simp
  have t1: "parseRFC3339 (csvRow1 ! 5) = Some 1705314600"
    by code_simp
  have k1: "Atoi (csvRow1 ! 6) = Some 5"
    by code_simp
  have c1: "LoadArticlesFromCSV parseRFC3339 (Some [Fields csvShortRow, Fields csvRow1]) [article1]
     = (Some (InvalidHeader 8 3), [article1])"
    using LoadArticlesFromCSV_header_and_rows
            [where header = csvShortRow and parseTime = parseRFC3339 and rows = "[Fields csvRow1]"
               and db = "[article1]"] h3
    by (simp add: csvShortRow_def)
  have c2: "LoadArticlesFromCSV parseRFC3339
        (Some [Fields csvHeader, Fields csvRow1, Fields csvShortRow, Fields csvRow2]) []
     = LoadArticlesFromCSV parseRFC3339 (Some [Fields csvHeader, Fields csvRow1, Fields csvRow2]) []"
    using LoadArticlesFromCSV_header_and_rows
            [where header = csvHeader and parseTime = parseRFC3339 and db = "[]"
               and l = "Fields csvShortRow" and before = "[Fields csvRow1]"
               and after = "[Fields csvRow2]"]
          h8 h3
    by simp
  have c3: "LoadArticlesFromCSV parseRFC3339
        (Some [Fields csvHeader, Fields csvRow1, Fields csvBadTimeRow, Fields csvRow2]) []
     = LoadArticlesFromCSV parseRFC3339 (Some [Fields csvHeader, Fields csvRow1, Fields csvRow2]) []"
    using LoadArticlesFromCSV_header_and_rows
            [where header = csvHeader and parseTime = parseRFC3339 and db = "[]"
               and l = "Fields csvBadTimeRow" and before = "[Fields csvRow1]"
               and after = "[Fields csvRow2]"]
          h8 badTime
    by simp
  have c4: "LoadArticlesFromCSV parseRFC3339
        (Some [Fields csvHeader, Fields csvRow1, Fields csvBadRankRow, Fields csvRow2]) []
     = LoadArticlesFromCSV parseRFC3339 (Some [Fields csvHeader, Fields csvRow1, Fields csvRow2]) []"
    using LoadArticlesFromCSV_header_and_rows
            [where header = csvHeader and parseTime = parseRFC3339 and db = "[]"
               and l = "Fields csvBadRankRow" and before = "[Fields csvRow1]"
               and after = "[Fields csvRow2]"]
          h8 badRank
    by simp
  have base: "LoadArticlesFromCSV parseRFC3339 (Some [Fields csvHeader]) [] = (None, [])"
    using LoadArticlesFromCSV_header_and_rows [where header = csvHeader and parseTime = parseRFC3339 and db = "[]"] h8
    by simp
  have c5: "LoadArticlesFromCSV parseRFC3339 (Some [Fields csvHeader, Fields csvRow1]) []
              = (None, [article1])"
    using LoadArticlesFromCSV_header_and_rows
            [where header = csvHeader and parseTime = parseRFC3339 and db = "[]" and r = csvRow1
               and t = 1705314600 and k = 5 and before = "[]"]
          h8 r8 t1 k1 base
    by (simp add: insertOrIgnore_def article1_def csvRow1_def)
  show ?thesis
    using c1 c2 c3 c4 c5 by simp
qed

section \<open>Query: order, search and bounds\<close>

lemma of_char_lower_char:
  "(of_char (lower_char c) :: nat) =
     (if 65 \<le> (of_char c :: nat) \<and> (of_char c :: nat) \<le> 90 then of_char c + 32 else of_char c)"
  by (simp add: lower_char_def Let_def)

lemma lower_char_idem [simp]: "lower_char (lower_char c) = lower_char c"
proof -
  have "(of_char (lower_char (lower_char c)) :: nat) = of_char (lower_char c)"
    by (simp add: of_char_lower_char)
  then show ?thesis by simp
qed

lemma lower_char_percent [simp]: "lower_char c = CHR ''%'' \<longleftrightarrow> c = CHR ''%''"
proof -
  have a: "lower_char c = CHR ''%'' \<longleftrightarrow> (of_char (lower_char c) :: nat) = of_char CHR ''%''"
    by (simp only: of_char_eq_iff)
  have b: "c = CHR ''%'' \<longleftrightarrow> (of_char c :: nat) = of_char CHR ''%''"
    by (simp only: of_char_eq_iff)
  show ?thesis
    unfolding a b by (simp add: of_char_lower_char)
qed

lemma lower_char_underscore [simp]: "lower_char c = CHR ''_'' \<longleftrightarrow> c = CHR ''_''"
proof -
  have a: "lower_char c = CHR ''_'' \<longleftrightarrow> (of_char (lower_char c) :: nat) = of_char CHR ''_''"
    by (simp only: of_char_eq_iff)
  have b: "c = CHR ''_'' \<longleftrightarrow> (of_char c :: nat) = of_char CHR ''_''"
    by (simp only: of_char_eq_iff)
  show ?thesis
    unfolding a b by (simp add: of_char_lower_char)
qed

lemma like_percent [simp]: "like ''%'' s"
  by (induction s) auto

lemma like_lower_text: "like p (map lower_char s) = like p s"
  by (induction p s rule: like.induct) auto

lemma like_lower_pattern: "like (map lower_char p) s = like p s"
  by (induction p s rule: like.induct) auto

lemma like_percent_Cons:
  "like (CHR ''%'' # q) s \<longleftrightarrow> (\<exists>ps ss. s = ps @ ss \<and> like q ss)"
proof (induction s)
  case Nil
  then show ?case by (cases q) auto
next
  case (Cons c cs)
  show ?case
  proof
    assume "like (CHR ''%'' # q) (c # cs)"
    then consider "like q (c # cs)" | "like (CHR ''%'' # q) cs" by auto
    then show "\<exists>ps ss. c # cs = ps @ ss \<and> like q ss"
    proof cases
      case 1
      then have "c # cs = [] @ (c # cs) \<and> like q (c # cs)" by simp
      then show ?thesis by blast
    next
      case 2
      with Cons.IH obtain ps ss where "cs = ps @ ss" "like q ss" by blast
      then have "c # cs = (c # ps) @ ss \<and> like q ss" by simp
      then show ?thesis by blast
    qed
  next
    assume "\<exists>ps ss. c # cs = ps @ ss \<and> like q ss"
    then obtain ps ss where eq: "c # cs = ps @ ss" and l: "like q ss" by blast
    show "like (CHR ''%'' # q) (c # cs)"
    proof (cases ps)
      case Nil
      with eq l have "like q (c # cs)" by simp
      then show ?thesis by simp
    next
      case (Cons p ps')
      with eq have "cs = ps' @ ss" by simp
      with l Cons.IH have "like (CHR ''%'' # q) cs" by blast
      then show ?thesis by simp
    qed
  qed
qed

lemma like_literal_percent:
  assumes "CHR ''%'' \<notin> set p" and "CHR ''_'' \<notin> set p"
  shows "like (p @ ''%'') s \<longleftrightarrow> prefix (map lower_char p) (map lower_char s)"
  using assms
proof (induction p arbitrary: s)
  case Nil
  then show ?case by simp
next
  case (Cons x xs)
  then show ?case by (cases s) auto
qed


lemma like_substring:
  assumes "CHR ''%'' \<notin> set p" and "CHR ''_'' \<notin> set p"
  shows "like (''%'' @ p @ ''%'') s \<longleftrightarrow> Contains (map lower_char s) (map lower_char p)"
proof
  assume "like (''%'' @ p @ ''%'') s"
  then obtain ps ss where s: "s = ps @ ss" and l: "like (p @ ''%'') ss"
    using like_percent_Cons [of "p @ ''%''" s] by auto
  from l assms have "prefix (map lower_char p) (map lower_char ss)"
    by (simp add: like_literal_percent)
  then obtain x where "map lower_char ss = map lower_char p @ x"
    by (auto simp: prefix_def)
  with s have "map lower_char s = map lower_char ps @ map lower_char p @ x"
    by simp
  then show "Contains (map lower_char s) (map lower_char p)"
    unfolding Contains_iff by blast
next
  assume "Contains (map lower_char s) (map lower_char p)"
  then obtain ps x where eq: "map lower_char s = ps @ map lower_char p @ x"
    unfolding Contains_iff by blast
  have "map lower_char (drop (length ps) s) = drop (length ps) (map lower_char s)"
    by (simp add: drop_map)
  also have "\<dots> = map lower_char p @ x"
    by (simp add: eq)
  finally have "prefix (map lower_char p) (map lower_char (drop (length ps) s))"
    by (simp add: prefix_def)
  with assms have "like (p @ ''%'') (drop (length ps) s)"
    by (simp add: like_literal_percent)
  moreover have "s = take (length ps) s @ drop (length ps) s"
    by simp
  ultimately have "\<exists>ps ss. s = ps @ ss \<and> like (p @ ''%'') ss"
    by blast
  then show "like (''%'' @ p @ ''%'') s"
    using like_percent_Cons [of "p @ ''%''" s] by simp
qed

lemma ToLower_wildcard_free:
  "CHR ''%'' \<notin> set (ToLower s) \<longleftrightarrow> CHR ''%'' \<notin> set s"
  "CHR ''_'' \<notin> set (ToLower s) \<longleftrightarrow> CHR ''_'' \<notin> set s"
  unfolding ToLower_def by (induction s) (auto simp: eq_commute [of "CHR ''%''"] eq_commute [of "CHR ''_''"])

lemma orderBy_set: "set (orderBy sortBy rows) = set rows"
  by (simp add: orderBy_def)

lemma orderBy_sorted:
  "sortBy = ''rank'' \<Longrightarrow> sorted_wrt (\<lambda>a b. Rank b \<le> Rank a) (orderBy sortBy rows)"
  "sortBy \<noteq> ''rank'' \<Longrightarrow> sorted_wrt (\<lambda>a b. PublishedAt b \<le> PublishedAt a) (orderBy sortBy rows)"
proof -
  have "sorted (map (\<lambda>r. - Rank r) (sort_key (\<lambda>r. - Rank r) rows))"
    by (rule sorted_sort_key)
  then show "sortBy = ''rank'' \<Longrightarrow> sorted_wrt (\<lambda>a b. Rank b \<le> Rank a) (orderBy sortBy rows)"
    by (simp add: orderBy_def sorted_wrt_map)
  have "sorted (map (\<lambda>r. - PublishedAt r) (sort_key (\<lambda>r. - PublishedAt r) rows))"
    by (rule sorted_sort_key)
  then show "sortBy \<noteq> ''rank'' \<Longrightarrow>
               sorted_wrt (\<lambda>a b. PublishedAt b \<le> PublishedAt a) (orderBy sortBy rows)"
    by (simp add: orderBy_def sorted_wrt_map)
qed

lemma limitRows_sorted: "sorted_wrt R rows \<Longrightarrow> sorted_wrt R (limitRows limit rows)"
  by (simp add: limitRows_def sorted_wrt_take)

lemma limitRows_set: "set (limitRows limit rows) \<subseteq> set rows"
  by (auto simp: limitRows_def dest: in_set_takeD)

lemma ball_if_single: "(\<forall>c \<in> set (if b then [f] else []). c a) \<longleftrightarrow> (b \<longrightarrow> f a)"
  by simp

text \<open>
  The text of a row is at least the text of a bound when its second is the second of
  the bound or a later one; it is at most the text of a bound only when its second is
  an earlier one, since in the second of the bound it is the bound and more bytes.
\<close>

lemma textLE_bound_driver [simp]: "textLE (formatBound b) (driverText t) \<longleftrightarrow> b \<le> t"
  by (auto simp: textLE_def formatBound_def driverText_def)

lemma textLE_driver_bound [simp]: "textLE (driverText t) (formatBound b) \<longleftrightarrow> t < b"
  by (simp add: textLE_def formatBound_def driverText_def)

lemma whereClauses_all:
  "(\<forall>c \<in> set (whereClauses toLower sourceFilter categoryFilter searchFilter startDate endDate).
      c a) \<longleftrightarrow>
     (sourceFilter = [] \<or> sourceFilter = ''all'' \<or> SourceURL a = sourceFilter) \<and>
     (categoryFilter = [] \<or> categoryFilter = ''all'' \<or> Category a = categoryFilter) \<and>
     (searchFilter = [] \<or>
      like (''%'' @ toLower searchFilter @ ''%'') (LOWER (Title a)) \<or>
      like (''%'' @ toLower searchFilter @ ''%'') (LOWER (Description a))) \<and>
     (IsZero startDate \<or> startDate \<le> PublishedAt a) \<and>
     (IsZero endDate \<or> PublishedAt a < endDate)"
  unfolding whereClauses_def Let_def set_append ball_Un ball_if_single
    textLE_bound_driver textLE_driver_bound
  by blast

lemma like_search_case:
  "like (''%'' @ ToLower searchFilter @ ''%'') (LOWER str) = like (''%'' @ searchFilter @ ''%'') str"
proof -
  have "''%'' @ ToLower searchFilter @ ''%'' = map lower_char (''%'' @ searchFilter @ ''%'')"
    by (simp add: ToLower_def lower_char_def)
  then show ?thesis
    by (simp only: LOWER_def like_lower_text like_lower_pattern)
qed

lemma like_search_substring:
  assumes "CHR ''%'' \<notin> set searchFilter" and "CHR ''_'' \<notin> set searchFilter"
  shows "like (''%'' @ ToLower searchFilter @ ''%'') (LOWER str)
           = Contains (ToLower str) (ToLower searchFilter)"
proof -
  have "like (''%'' @ ToLower searchFilter @ ''%'') (LOWER str)
          = Contains (map lower_char (LOWER str)) (map lower_char (ToLower searchFilter))"
    using assms by (intro like_substring) (simp_all add: ToLower_wildcard_free)
  then show ?thesis
    by (simp add: LOWER_def ToLower_def comp_def)
qed

text \<open>
  What a query of an open database returns: rows of the table, in the order of the
  time of publication, the latest first, unless \<open>sortBy\<close> is \<^verbatim>\<open>rank\<close>, and then in the
  order of the rank, the highest first. Every row returned passes the filters, and
  without a limit every row of the table that passes them is returned. A start that
  is not the zero time bounds the time of publication from below, the second of the
  bound included; an end that is not the zero time bounds it from above, the second
  of the bound excluded. The search passes a row when the title or the description,
  lowercased by the store, matches the search text, lowercased by Go, between two
  \<^verbatim>\<open>%\<close>. For a search text that Go lowers as the ASCII fold does, which is every
  ASCII text, the case of the ASCII letters of the search text and of the row makes
  no difference to the match, and without \<^verbatim>\<open>%\<close> and \<^verbatim>\<open>_\<close> in the search text the
  match is the occurrence of the lowercased search text in the lowercased field.
\<close>

lemma GetArticlesFromDB_order_and_filters:
  "(let passes = (\<lambda>a.
          (sourceFilter = [] \<or> sourceFilter = ''all'' \<or> SourceURL a = sourceFilter) \<and>
          (categoryFilter = [] \<or> categoryFilter = ''all'' \<or> Category a = categoryFilter) \<and>
          (searchFilter = [] \<or>
           like (''%'' @ toLower searchFilter @ ''%'') (LOWER (Title a)) \<or>
           like (''%'' @ toLower searchFilter @ ''%'') (LOWER (Description a))) \<and>
          (IsZero startDate \<or> startDate \<le> PublishedAt a) \<and>
          (IsZero endDate \<or> PublishedAt a < endDate))
    in \<exists>res.
         GetArticlesFromDB toLower (Some tbl) sourceFilter categoryFilter searchFilter limit
             startDate endDate sortBy = Inr res
         \<and> (sortBy \<noteq> ''rank'' \<longrightarrow> sorted_wrt (\<lambda>a b. PublishedAt b \<le> PublishedAt a) res)
         \<and> (sortBy = ''rank'' \<longrightarrow> sorted_wrt (\<lambda>a b. Rank b \<le> Rank a) res)
         \<and> (\<forall>a \<in> set res. a \<in> set tbl \<and> passes a)
         \<and> (limit \<le> 0 \<longrightarrow> (\<forall>a \<in> set tbl. passes a \<longrightarrow> a \<in> set res)))
   \<and> (toLower searchFilter = ToLower searchFilter \<longrightarrow>
       like (''%'' @ toLower searchFilter @ ''%'') (LOWER str)
         = like (''%'' @ searchFilter @ ''%'') str)
   \<and> (toLower searchFilter = ToLower searchFilter \<and>
       CHR ''%'' \<notin> set searchFilter \<and> CHR ''_'' \<notin> set searchFilter \<longrightarrow>
       like (''%'' @ toLower searchFilter @ ''%'') (LOWER str)
         = Contains (ToLower str) (ToLower searchFilter))"
proof (intro conjI)
  let ?cs = "whereClauses toLower sourceFilter categoryFilter searchFilter startDate endDate"
  let ?sel = "filter (\<lambda>r. \<forall>c \<in> set ?cs. c r) tbl"
  let ?res = "limitRows limit (orderBy sortBy ?sel)"
  let ?passes = "\<lambda>a.
          (sourceFilter = [] \<or> sourceFilter = ''all'' \<or> SourceURL a = sourceFilter) \<and>
          (categoryFilter = [] \<or> categoryFilter = ''all'' \<or> Category a = categoryFilter) \<and>
          (searchFilter = [] \<or>
           like (''%'' @ toLower searchFilter @ ''%'') (LOWER (Title a)) \<or>
           like (''%'' @ toLower searchFilter @ ''%'') (LOWER (Description a))) \<and>
          (IsZero startDate \<or> startDate \<le> PublishedAt a) \<and>
          (IsZero endDate \<or> PublishedAt a < endDate)"
  have res: "GetArticlesFromDB toLower (Some tbl) sourceFilter categoryFilter searchFilter limit
               startDate endDate sortBy = Inr ?res"
    by (simp add: GetArticlesFromDB_def Let_def)
  have s1: "sortBy \<noteq> ''rank'' \<longrightarrow> sorted_wrt (\<lambda>a b. PublishedAt b \<le> PublishedAt a) ?res"
    by (intro impI limitRows_sorted orderBy_sorted)
  have s2: "sortBy = ''rank'' \<longrightarrow> sorted_wrt (\<lambda>a b. Rank b \<le> Rank a) ?res"
    by (intro impI limitRows_sorted orderBy_sorted)
  have sel: "a \<in> set ?sel \<longleftrightarrow> a \<in> set tbl \<and> ?passes a" for a
    by (simp only: set_filter mem_Collect_eq whereClauses_all)
  have sub: "set ?res \<subseteq> set ?sel"
    using limitRows_set [of limit "orderBy sortBy ?sel"] by (simp add: orderBy_set)
  have all: "limit \<le> 0 \<longrightarrow> set ?res = set ?sel"
    by (simp add: limitRows_def orderBy_set)
  have sound: "\<forall>a \<in> set ?res. a \<in> set tbl \<and> ?passes a"
    using sub sel by blast
  have complete: "limit \<le> 0 \<longrightarrow> (\<forall>a \<in> set tbl. ?passes a \<longrightarrow> a \<in> set ?res)"
    using all sel by blast
  show "let passes = ?passes
    in \<exists>res.
         GetArticlesFromDB toLower (Some tbl) sourceFilter categoryFilter searchFilter limit
             startDate endDate sortBy = Inr res
         \<and> (sortBy \<noteq> ''rank'' \<longrightarrow> sorted_wrt (\<lambda>a b. PublishedAt b \<le> PublishedAt a) res)
         \<and> (sortBy = ''rank'' \<longrightarrow> sorted_wrt (\<lambda>a b. Rank b \<le> Rank a) res)
         \<and> (\<forall>a \<in> set res. a \<in> set tbl \<and> passes a)
         \<and> (limit \<le> 0 \<longrightarrow> (\<forall>a \<in> set tbl. passes a \<longrightarrow> a \<in> set res))"
    unfolding Let_def
    using res s1 s2 sound complete by (intro exI [of _ ?res] conjI)
  show "toLower searchFilter = ToLower searchFilter \<longrightarrow>
       like (''%'' @ toLower searchFilter @ ''%'') (LOWER str)
         = like (''%'' @ searchFilter @ ''%'') str"
  proof
    assume "toLower searchFilter = ToLower searchFilter"
    then show "like (''%'' @ toLower searchFilter @ ''%'') (LOWER str)
                 = like (''%'' @ searchFilter @ ''%'') str"
      by (simp only: like_search_case)
  qed
  show "toLower searchFilter = ToLower searchFilter \<and>
       CHR ''%'' \<notin> set searchFilter \<and> CHR ''_'' \<notin> set searchFilter \<longrightarrow>
       like (''%'' @ toLower searchFilter @ ''%'') (LOWER str)
         = Contains (ToLower str) (ToLower searchFilter)"
  proof (intro impI)
    assume a: "toLower searchFilter = ToLower searchFilter \<and>
       CHR ''%'' \<notin> set searchFilter \<and> CHR ''_'' \<notin> set searchFilter"
    have "like (''%'' @ ToLower searchFilter @ ''%'') (LOWER str)
            = Contains (ToLower str) (ToLower searchFilter)"
      by (rule like_search_substring) (use a in simp_all)
    with a show "like (''%'' @ toLower searchFilter @ ''%'') (LOWER str)
            = Contains (ToLower str) (ToLower searchFilter)"
      by simp
  qed
qed

text \<open>
  On ASCII text the search and the order do what the lemma says: of the sample
  table, the search text \<^verbatim>\<open>zero-DAY\<close> finds the three articles that have it in the
  title or in the description in any case of the letters, the latest first by time
  and the highest rank first by rank.
\<close>

lemma GetArticlesFromDB_search_and_order:
  "GetArticlesFromDB ToLower (Some queryTable) [] [] ''zero-DAY'' 0 zeroTime zeroTime []
     = Inr [queryB, queryA, queryD]
   \<and> GetArticlesFromDB ToLower (Some queryTable) [] [] ''zero-DAY'' 0 zeroTime zeroTime ''rank''
     = Inr [queryA, queryD, queryB]"
  by code_simp

text \<open>
  A search text with a letter outside ASCII does not find a title equal to it: Go
  lowers the capital E with acute accent of the search text, the bytes C3 89, to the
  bytes C3 A9, and the store, which folds ASCII letters only, leaves the title as it
  is.
\<close>

lemma GetArticlesFromDB_search_not_ASCII:
  assumes "toLower [CHR 0xC3, CHR 0x89] = [CHR 0xC3, CHR 0xA9]"
  shows "GetArticlesFromDB toLower
           (Some [\<lparr>Title = [CHR 0xC3, CHR 0x89], Description = [], ImageURL = [], URL = ''u'',
                   SourceURL = ''s'', PublishedAt = 100, Rank = 0, Category = ''General''\<rparr>])
           [] [] [CHR 0xC3, CHR 0x89] 0 zeroTime zeroTime [] = Inr []"
  using assms
  by (simp add: GetArticlesFromDB_def whereClauses_def IsZero_def Let_def LOWER_def
        lower_char_def limitRows_def orderBy_def)

text \<open>
  C9 does not hold at the end bound. On the sample table, whose articles are
  published at the times 100, 300, 200 and 50, the query with the start 100 and the
  end 300, no other filter and no limit, returns the articles of 200 and of 100, in
  this order: the article published in the second of the start is returned, the
  article published in the second of the end is not. The condition
  \<^verbatim>\<open>publishedAt <= ?\<close> compares the text of the row, which goes on after the second,
  with the 19 bytes of the bound.
\<close>

theorem GetArticlesFromDB_end_bound_excluded:
  "GetArticlesFromDB ToLower (Some queryTable) [] [] [] 0 100 300 [] = Inr [queryC, queryA]
   \<and> queryTable = [queryA, queryB, queryC, queryD]
   \<and> PublishedAt queryA = 100 \<and> PublishedAt queryB = 300
   \<and> PublishedAt queryC = 200 \<and> PublishedAt queryD = 50"
proof (intro conjI)
  show "GetArticlesFromDB ToLower (Some queryTable) [] [] [] 0 100 300 [] = Inr [queryC, queryA]"
    by code_simp
qed (simp_all add: queryTable_def queryA_def queryB_def queryC_def queryD_def)

text \<open>
  The result at the bounds: the article of the second of the end is not among the
  rows returned, the article of the second of the start is.
\<close>

theorem GetArticlesFromDB_end_bound_excluded_witness:
  "GetArticlesFromDB ToLower (Some queryTable) [] [] [] 0 100 300 [] = Inr [queryC, queryA]
   \<and> queryB \<notin> set [queryC, queryA]
   \<and> queryA \<in> set [queryC, queryA]"
  using GetArticlesFromDB_end_bound_excluded
  by (simp add: queryA_def queryB_def queryC_def)

section \<open>A run of the ingestion\<close>



















section \<open>The rank of the articles in the table\<close>










end
